theory Spec2Isabelle
  imports Complex_Main
begin

section \<open>Training callbacks of VSR/Framework/Callbacks.py\<close>

text \<open>
  The module is a set of small callbacks handed to a training loop. Python numbers
  (\<open>int\<close> and \<open>float\<close>) are modelled as \<^typ>\<open>real\<close>: rounding and overflow
  of IEEE doubles are not part of this development. Exceptions are values of the type
  \<open>error\<close>, and a function that can raise returns \<open>error + 'a\<close> with \<open>Inl\<close> for the
  exception. The source names start with an underscore, which an identifier here cannot:
  \<open>_exponential_decay\<close> is \<open>exponential_decay\<close>, and so on.
\<close>

datatype error = ValueError | TypeError | ZeroDivisionError | IndexError | AssertionError

subsection \<open>Python arithmetic used by the decay formulas\<close>

text \<open>
  The result of \<open>**\<close> on two real numbers is a real number, except that a negative base
  with a non-integral exponent gives a complex number (computed by Python from the polar
  form, with argument \<open>\<pi>\<close> for the negative base), and that zero to a negative power
  raises \<open>ZeroDivisionError\<close>.
\<close>

datatype pynum = PyFloat real | PyComplex complex

definition py_truediv :: "real \<Rightarrow> real \<Rightarrow> error + real" where
  "py_truediv a b = (if b = 0 then Inl ZeroDivisionError else Inr (a / b))"

definition py_floordiv :: "real \<Rightarrow> real \<Rightarrow> error + real" where
  "py_floordiv a b = (if b = 0 then Inl ZeroDivisionError else Inr (of_int \<lfloor>a / b\<rfloor>))"

definition py_pow :: "real \<Rightarrow> real \<Rightarrow> error + pynum" where
  "py_pow x y =
     (if x = 0 \<and> y < 0 then Inl ZeroDivisionError
      else if x < 0 \<and> y \<noteq> of_int \<lfloor>y\<rfloor> then
        Inr (PyComplex (of_real (\<bar>x\<bar> powr y) * cis (pi * y)))
      else if y = of_int \<lfloor>y\<rfloor> then Inr (PyFloat (x powi \<lfloor>y\<rfloor>))
      else Inr (PyFloat (x powr y)))"

fun num_mult :: "real \<Rightarrow> pynum \<Rightarrow> pynum" where
  "num_mult a (PyFloat b) = PyFloat (a * b)"
| "num_mult a (PyComplex z) = PyComplex (of_real a * z)"

fun num_add :: "pynum \<Rightarrow> real \<Rightarrow> pynum" where
  "num_add (PyFloat a) b = PyFloat (a + b)"
| "num_add (PyComplex z) b = PyComplex (z + of_real b)"

subsection \<open>The three decay formulas\<close>

text \<open>
  \<^verbatim>\<open>return start_lr * decay_rate ** (steps / decay_step)\<close>
\<close>

definition exponential_decay ::
  "real \<Rightarrow> real \<Rightarrow> real \<Rightarrow> real \<Rightarrow> real \<Rightarrow> real \<Rightarrow> error + pynum" where
  "exponential_decay lr start_lr epochs steps decay_step decay_rate =
     (case py_truediv steps decay_step of
        Inl e \<Rightarrow> Inl e
      | Inr q \<Rightarrow>
          (case py_pow decay_rate q of
             Inl e \<Rightarrow> Inl e
           | Inr p \<Rightarrow> Inr (num_mult start_lr p)))"

text \<open>
  \<^verbatim>\<open>return (start_lr - end_lr) * (1 - steps / decay_step) ** power + end_lr\<close>
  (the parameter \<open>power\<close> is \<open>pwr\<close> here).
\<close>

definition poly_decay ::
  "real \<Rightarrow> real \<Rightarrow> real \<Rightarrow> real \<Rightarrow> real \<Rightarrow> real \<Rightarrow> real \<Rightarrow> error + pynum" where
  "poly_decay lr start_lr end_lr epochs steps decay_step pwr =
     (case py_truediv steps decay_step of
        Inl e \<Rightarrow> Inl e
      | Inr q \<Rightarrow>
          (case py_pow (1 - q) pwr of
             Inl e \<Rightarrow> Inl e
           | Inr p \<Rightarrow> Inr (num_add (num_mult (start_lr - end_lr) p) end_lr)))"

text \<open>
  \<^verbatim>\<open>return start_lr * decay_rate ** (steps // decay_step)\<close>
\<close>

definition stair_decay ::
  "real \<Rightarrow> real \<Rightarrow> real \<Rightarrow> real \<Rightarrow> real \<Rightarrow> real \<Rightarrow> error + pynum" where
  "stair_decay lr start_lr epochs steps decay_step decay_rate =
     (case py_floordiv steps decay_step of
        Inl e \<Rightarrow> Inl e
      | Inr q \<Rightarrow>
          (case py_pow decay_rate q of
             Inl e \<Rightarrow> Inl e
           | Inr p \<Rightarrow> Inr (num_mult start_lr p)))"

subsection \<open>Keyword arguments and \<open>functools.partial\<close>\<close>

text \<open>
  Keyword arguments are a dictionary from names to numbers, kept as an association list
  that is read with \<^const>\<open>map_of\<close> (the first entry of a key counts). A \<open>partial\<close>
  object keeps the function and the keywords bound at setup; calling it puts the call's
  keywords over the bound ones and then binds the function's parameters as Python does:
  positional arguments fill the parameters from the left, and a parameter given twice, an
  unknown keyword or a parameter left without a value raise \<open>TypeError\<close>.
\<close>

type_synonym kwargs = "(string \<times> real) list"

datatype decay_fn = ExponentialDecay | PolyDecay | StairDecay

record decay_partial =
  func :: decay_fn
  bound_kw :: kwargs

fun params :: "decay_fn \<Rightarrow> string list" where
  "params ExponentialDecay =
     [''lr'', ''start_lr'', ''epochs'', ''steps'', ''decay_step'', ''decay_rate'']"
| "params PolyDecay =
     [''lr'', ''start_lr'', ''end_lr'', ''epochs'', ''steps'', ''decay_step'', ''power'']"
| "params StairDecay =
     [''lr'', ''start_lr'', ''epochs'', ''steps'', ''decay_step'', ''decay_rate'']"

definition bind_args :: "string list \<Rightarrow> real list \<Rightarrow> kwargs \<Rightarrow> error + real list" where
  "bind_args ps args kw =
     (if length ps < length args then Inl TypeError
      else if list_ex (\<lambda>p. p \<in> set (map fst kw)) (take (length args) ps) then Inl TypeError
      else if list_ex (\<lambda>k. k \<notin> set ps) (map fst kw) then Inl TypeError
      else (case those (map (map_of (zip ps args @ kw)) ps) of
              None \<Rightarrow> Inl TypeError
            | Some vs \<Rightarrow> Inr vs))"

fun apply_decay :: "decay_fn \<Rightarrow> real list \<Rightarrow> error + pynum" where
  "apply_decay ExponentialDecay [lr, start_lr, epochs, steps, decay_step, decay_rate] =
     exponential_decay lr start_lr epochs steps decay_step decay_rate"
| "apply_decay PolyDecay [lr, start_lr, end_lr, epochs, steps, decay_step, pwr] =
     poly_decay lr start_lr end_lr epochs steps decay_step pwr"
| "apply_decay StairDecay [lr, start_lr, epochs, steps, decay_step, decay_rate] =
     stair_decay lr start_lr epochs steps decay_step decay_rate"
| "apply_decay _ _ = Inl TypeError"

definition call_partial :: "decay_partial \<Rightarrow> real list \<Rightarrow> kwargs \<Rightarrow> error + pynum" where
  "call_partial p args kw =
     (case bind_args (params (func p)) args (kw @ bound_kw p) of
        Inl e \<Rightarrow> Inl e
      | Inr vs \<Rightarrow> apply_decay (func p) vs)"

text \<open>
  \<^verbatim>\<open>
  def lr_decay(method, lr, **kwargs):
      if method == 'exp':
          return partial(_exponential_decay, start_lr=lr, **kwargs)
      elif method == 'poly':
          return partial(_poly_decay, start_lr=lr, **kwargs)
      elif method == 'stair':
          return partial(_stair_decay, start_lr=lr, **kwargs)
      else:
          raise ValueError('invalid decay method!')
  \<close>
  The argument \<open>kw\<close> holds the extra keywords of the call, beside \<open>method\<close> and
  \<open>lr\<close>. An extra keyword named \<open>method\<close> or \<open>lr\<close> gives that parameter a second
  value, and Python raises \<open>TypeError\<close> before the body runs, whatever the method is.
  In each of the three calls of \<open>partial\<close> the keyword \<open>start_lr\<close> is written out and
  \<open>kwargs\<close> is unpacked beside it, so an extra keyword \<open>start_lr\<close> gives the same
  keyword twice, which Python refuses with \<open>TypeError\<close> too.
\<close>

definition mk_partial :: "decay_fn \<Rightarrow> real \<Rightarrow> kwargs \<Rightarrow> error + decay_partial" where
  "mk_partial f lr kw =
     (if ''start_lr'' \<in> set (map fst kw) then Inl TypeError
      else Inr \<lparr>func = f, bound_kw = (''start_lr'', lr) # kw\<rparr>)"

definition lr_decay :: "string \<Rightarrow> real \<Rightarrow> kwargs \<Rightarrow> error + decay_partial" where
  "lr_decay method lr kw =
     (if ''method'' \<in> set (map fst kw) \<or> ''lr'' \<in> set (map fst kw) then Inl TypeError
      else if method = ''exp'' then mk_partial ExponentialDecay lr kw
      else if method = ''poly'' then mk_partial PolyDecay lr kw
      else if method = ''stair'' then mk_partial StairDecay lr kw
      else Inl ValueError)"

section \<open>Arrays\<close>

text \<open>
  A numpy array is its shape, its element type and its elements in row-major order. The
  element types kept are the ones the framework's images and tensors have: \<open>uint8\<close>,
  \<open>int64\<close>, \<open>float32\<close> and \<open>float64\<close>. Elements are real numbers: floating-point
  rounding, NaN and infinities inside arrays are not modelled, integer arithmetic wraps
  around as numpy's does.
\<close>

datatype dtype = UInt8 | Int64 | Float32 | Float64

record ndarray =
  shape :: "nat list"
  dtype :: dtype
  data :: "real list"

definition ndim :: "ndarray \<Rightarrow> nat" where
  "ndim a = length (shape a)"

fun cast :: "dtype \<Rightarrow> real \<Rightarrow> real" where
  "cast UInt8 v = of_int (\<lfloor>v\<rfloor> mod 256)"
| "cast Int64 v = of_int ((\<lfloor>v\<rfloor> + 2 ^ 63) mod 2 ^ 64 - 2 ^ 63)"
| "cast Float32 v = v"
| "cast Float64 v = v"

definition wf_array :: "ndarray \<Rightarrow> bool" where
  "wf_array a \<longleftrightarrow>
     length (data a) = prod_list (shape a) \<and> list_all (\<lambda>v. cast (dtype a) v = v) (data a)"

text \<open>
  The type of the result of a binary operation on two arrays (numpy's
  \<open>promote_types\<close>). An array without axes is promoted like any other array, which is
  what numpy does since version 2; older releases let such an operand follow the type of
  the other one. No property below rests on that case.
\<close>

fun result_type :: "dtype \<Rightarrow> dtype \<Rightarrow> dtype" where
  "result_type Float64 _ = Float64"
| "result_type _ Float64 = Float64"
| "result_type Int64 Float32 = Float64"
| "result_type Float32 Int64 = Float64"
| "result_type Float32 _ = Float32"
| "result_type _ Float32 = Float32"
| "result_type Int64 _ = Int64"
| "result_type _ Int64 = Int64"
| "result_type UInt8 UInt8 = UInt8"

subsection \<open>Broadcasting\<close>

text \<open>
  Shapes are aligned at their last axis; two extents are compatible when they are equal
  or one of them is 1. Incompatible shapes raise \<open>ValueError\<close>.
\<close>

fun broadcast_rev :: "nat list \<Rightarrow> nat list \<Rightarrow> nat list option" where
  "broadcast_rev [] ys = Some ys"
| "broadcast_rev xs [] = Some xs"
| "broadcast_rev (x # xs) (y # ys) =
     (if x = y \<or> y = 1 then map_option ((#) x) (broadcast_rev xs ys)
      else if x = 1 then map_option ((#) y) (broadcast_rev xs ys)
      else None)"

definition broadcast_shapes :: "nat list \<Rightarrow> nat list \<Rightarrow> nat list option" where
  "broadcast_shapes s t = map_option rev (broadcast_rev (rev s) (rev t))"

definition chunks :: "nat \<Rightarrow> nat \<Rightarrow> 'a list \<Rightarrow> 'a list list" where
  "chunks n k xs = map (\<lambda>i. take k (drop (i * k) xs)) [0..<n]"

text \<open>
  \<open>broadcast_data s t xs\<close> are the elements of an array of shape \<open>s\<close> and elements
  \<open>xs\<close> stretched to the shape \<open>t\<close> of the same length: an axis of equal extent is
  walked block by block, an axis of extent 1 is repeated.
\<close>

fun broadcast_data :: "nat list \<Rightarrow> nat list \<Rightarrow> 'a list \<Rightarrow> 'a list" where
  "broadcast_data (d # s) (e # t) xs =
     (if d = e then concat (map (broadcast_data s t) (chunks d (prod_list s) xs))
      else concat (replicate e (broadcast_data s t xs)))"
| "broadcast_data _ _ xs = xs"

definition broadcast_to :: "nat list \<Rightarrow> ndarray \<Rightarrow> real list" where
  "broadcast_to t a =
     broadcast_data (replicate (length t - length (shape a)) 1 @ shape a) t (data a)"

definition np_binop :: "(real \<Rightarrow> real \<Rightarrow> real) \<Rightarrow> ndarray \<Rightarrow> ndarray \<Rightarrow> error + ndarray" where
  "np_binop f a b =
     (case broadcast_shapes (shape a) (shape b) of
        None \<Rightarrow> Inl ValueError
      | Some t \<Rightarrow>
          (let dt = result_type (dtype a) (dtype b)
           in Inr \<lparr>shape = t, dtype = dt,
                   data = map2 (\<lambda>x y. cast dt (f x y)) (broadcast_to t a) (broadcast_to t b)\<rparr>))"

definition np_subtract :: "ndarray \<Rightarrow> ndarray \<Rightarrow> error + ndarray" where
  "np_subtract = np_binop (-)"

definition np_add :: "ndarray \<Rightarrow> ndarray \<Rightarrow> error + ndarray" where
  "np_add = np_binop (+)"

definition np_zeros_like :: "ndarray \<Rightarrow> ndarray" where
  "np_zeros_like a = a\<lparr>data := replicate (prod_list (shape a)) 0\<rparr>"

subsection \<open>Truth values\<close>

text \<open>
  Python's \<open>x or y\<close> asks for the truth value of \<open>x\<close>. \<open>None\<close> and the empty list are
  false, a non-empty list is true. An array of one element has the truth value of that
  element, an array of more than one element raises \<open>ValueError\<close> (``the truth value of
  an array with more than one element is ambiguous''), and an empty array is false (with
  a deprecation warning in the numpy releases the code was written for).
\<close>

datatype pyobj = PyNone | PyList "ndarray list" | PyArr ndarray

fun array_truth :: "real list \<Rightarrow> error + bool" where
  "array_truth [] = Inr False"
| "array_truth [x] = Inr (x \<noteq> 0)"
| "array_truth _ = Inl ValueError"

fun py_truth :: "pyobj \<Rightarrow> error + bool" where
  "py_truth PyNone = Inr False"
| "py_truth (PyList l) = Inr (l \<noteq> [])"
| "py_truth (PyArr a) = array_truth (data a)"

definition py_or :: "pyobj \<Rightarrow> pyobj \<Rightarrow> error + pyobj" where
  "py_or x y = (case py_truth x of Inl e \<Rightarrow> Inl e | Inr t \<Rightarrow> Inr (if t then x else y))"

subsection \<open>Residual subtraction\<close>

text \<open>
  \<^verbatim>\<open>
  def _sub_residual(**kwargs):
      img = kwargs.get('input')
      res = kwargs.get('output') or np.zeros_like(img)
      res = res[0] if isinstance(res, list) else res
      return img - res

  def reduce_residual(**kwargs):
      return partial(_sub_residual, **kwargs)
  \<close>
  The model takes the two entries the function reads from its keywords: \<open>img\<close>, the
  array under \<open>input\<close>, and \<open>out\<close>, the value of \<open>kwargs.get('output')\<close>, which is
  \<open>None\<close> when the key is absent, a list of arrays or an array. After the \<open>or\<close> the
  value \<open>res\<close> cannot be \<open>None\<close>, since \<open>None\<close> is false. Keywords bound by
  \<open>reduce_residual\<close> are replaced by those of the call, so the callable is
  \<open>_sub_residual\<close> on the values in force.
\<close>

definition sub_residual :: "ndarray \<Rightarrow> pyobj \<Rightarrow> error + ndarray" where
  "sub_residual img out =
     (case py_or out (PyArr (np_zeros_like img)) of
        Inl e \<Rightarrow> Inl e
      | Inr res \<Rightarrow>
          (case res of
             PyList l \<Rightarrow> (case l of [] \<Rightarrow> Inl IndexError | r # _ \<Rightarrow> np_subtract img r)
           | PyArr r \<Rightarrow> np_subtract img r
           | PyNone \<Rightarrow> Inl TypeError))"

definition reduce_residual :: "ndarray \<Rightarrow> pyobj \<Rightarrow> error + ndarray" where
  "reduce_residual = sub_residual"

subsection \<open>Normalising an array to an image\<close>

text \<open>
  \<open>np.squeeze(img, i)\<close> removes axis \<open>i\<close> when its extent is 1 and raises
  \<open>ValueError\<close> otherwise; an axis that does not exist raises numpy's \<open>AxisError\<close>, which
  is a \<open>ValueError\<close> too.
\<close>

definition np_squeeze :: "ndarray \<Rightarrow> nat \<Rightarrow> error + ndarray" where
  "np_squeeze a i =
     (if ndim a \<le> i then Inl ValueError
      else if shape a ! i \<noteq> 1 then Inl ValueError
      else Inr (a\<lparr>shape := take i (shape a) @ drop (Suc i) (shape a)\<rparr>))"

text \<open>
  \<^verbatim>\<open>
  for i in range(np.ndim(img)):
      try:
          img = np.squeeze(img, i)
      except ValueError:
          pass
  \<close>
  The range is fixed before the first pass; the axis numbers of later passes refer to the
  array as the earlier passes left it.
\<close>

fun squeeze_loop :: "nat list \<Rightarrow> ndarray \<Rightarrow> ndarray" where
  "squeeze_loop [] img = img"
| "squeeze_loop (i # is) img =
     squeeze_loop is (case np_squeeze img i of Inl e \<Rightarrow> img | Inr img' \<Rightarrow> img')"



definition np_clip :: "ndarray \<Rightarrow> real \<Rightarrow> real \<Rightarrow> ndarray" where
  "np_clip a lo hi = a\<lparr>data := map (\<lambda>v. min (max v lo) hi) (data a)\<rparr>"







subsection \<open>The image that is saved\<close>






subsection \<open>Noise\<close>

text \<open>
  \<open>np.random.normal(mean, stddev, shape)\<close> draws standard normal numbers and returns
  \<open>mean + stddev * z\<close> for each of them, as a \<open>float64\<close> array; a negative \<open>stddev\<close>
  raises \<open>ValueError\<close>. The draws are the parameter \<open>z\<close>, so that a statement for all
  \<open>z\<close> is a statement about every realization of the noise.
\<close>

definition np_random_normal :: "(nat \<Rightarrow> real) \<Rightarrow> real \<Rightarrow> real \<Rightarrow> nat list \<Rightarrow> error + ndarray" where
  "np_random_normal z mean stddev s =
     (if stddev < 0 then Inl ValueError
      else Inr \<lparr>shape = s, dtype = Float64,
                data = map (\<lambda>i. mean + stddev * z i) [0..<prod_list s]\<rparr>)"

text \<open>
  \<open>feature.astype('float')\<close> converts to \<open>float64\<close>. Every \<open>uint8\<close>, \<open>float32\<close>
  and \<open>float64\<close> value is a \<open>float64\<close> value. An \<open>int64\<close> value of magnitude above
  \<open>2 ^ 53\<close> need not be one: it is rounded to the nearest multiple of the spacing of
  the doubles at its size, a tie going to the even multiple. \<open>ulp_int n\<close> is that
  spacing for the magnitude \<open>n\<close>.
\<close>

definition round_half_even :: "real \<Rightarrow> int" where
  "round_half_even x =
     (let f = \<lfloor>x\<rfloor>; d = x - of_int f
      in if d < 1 / 2 then f else if 1 / 2 < d then f + 1 else if even f then f else f + 1)"

function ulp_int :: "int \<Rightarrow> int" where
  "ulp_int n = (if n < 2 ^ 53 then 1 else 2 * ulp_int (n div 2))"
  by pat_completeness auto
termination
  by (relation "measure nat") auto

declare ulp_int.simps [simp del]

definition round_to_double :: "real \<Rightarrow> real" where
  "round_to_double v =
     (let u = of_int (ulp_int \<lfloor>\<bar>v\<bar>\<rfloor>)
      in sgn v * (of_int (round_half_even (\<bar>v\<bar> / u)) * u))"

fun astype_value :: "dtype \<Rightarrow> real \<Rightarrow> real" where
  "astype_value Int64 v = round_to_double v"
| "astype_value UInt8 v = v"
| "astype_value Float32 v = v"
| "astype_value Float64 v = v"

definition astype_float :: "ndarray \<Rightarrow> ndarray" where
  "astype_float a = \<lparr>shape = shape a, dtype = Float64,
                      data = map (astype_value (dtype a)) (data a)\<rparr>"

text \<open>
  \<^verbatim>\<open>
  def _add_noise(feature, stddev, mean, clip, **kwargs):
      x = feature.astype('float') + np.random.normal(mean, stddev, feature.shape)
      return np.clip(x, 0, 255) if clip else x

  def add_noise(sigma, mean=0, clip=False):
      return partial(_add_noise, stddev=sigma, mean=mean, clip=clip)
  \<close>
  \<open>_add_noise\<close> is \<open>add_noise_impl\<close> here, and \<open>add_noise sigma mean clip\<close> is the
  callable that \<open>add_noise\<close> returns, applied to the draws and to the feature array.
\<close>

definition add_noise_impl ::
  "(nat \<Rightarrow> real) \<Rightarrow> ndarray \<Rightarrow> real \<Rightarrow> real \<Rightarrow> bool \<Rightarrow> error + ndarray" where
  "add_noise_impl z feature stddev mean clip =
     (case np_random_normal z mean stddev (shape feature) of
        Inl e \<Rightarrow> Inl e
      | Inr noise \<Rightarrow>
          (case np_add (astype_float feature) noise of
             Inl e \<Rightarrow> Inl e
           | Inr x \<Rightarrow> Inr (if clip then np_clip x 0 255 else x)))"

definition add_noise :: "real \<Rightarrow> real \<Rightarrow> bool \<Rightarrow> (nat \<Rightarrow> real) \<Rightarrow> ndarray \<Rightarrow> error + ndarray" where
  "add_noise sigma mean clip z feature = add_noise_impl z feature sigma mean clip"

text \<open>
  \<open>list(range(low, high, step))\<close>: a step of 0 raises \<open>ValueError\<close>; a positive step
  counts up from \<open>low\<close> while below \<open>high\<close>, a negative step counts down while above.
\<close>

definition range_len :: "int \<Rightarrow> int \<Rightarrow> int \<Rightarrow> nat" where
  "range_len low high step =
     (if 0 < step \<and> low < high then nat ((high - low - 1) div step + 1)
      else if step < 0 \<and> high < low then nat ((low - high - 1) div (- step) + 1)
      else 0)"

definition py_range :: "int \<Rightarrow> int \<Rightarrow> int \<Rightarrow> error + int list" where
  "py_range low high step =
     (if step = 0 then Inl ValueError
      else Inr (map (\<lambda>k. low + int k * step) [0..<range_len low high step]))"

text \<open>
  \<open>np.random.randint(k)\<close> returns a number from 0 up to \<open>k - 1\<close> and raises
  \<open>ValueError\<close> when \<open>k\<close> is 0. The draw is the parameter \<open>u\<close>.
\<close>

definition np_random_randint :: "nat \<Rightarrow> nat \<Rightarrow> error + nat" where
  "np_random_randint u k = (if k = 0 then Inl ValueError else Inr (u mod k))"

text \<open>
  \<^verbatim>\<open>
  def _add_random_noise(feature, low, high, step, mean, clip, **kwargs):
      n = list(range(low, high, step))
      i = np.random.randint(len(n))
      stddev = n[i]
      return _add_noise(feature, stddev, mean, clip)

  def add_random_noise(low, high, step=1, mean=0, clip=False):
      return partial(_add_random_noise, low=low, high=high, step=step, mean=mean, clip=clip)
  \<close>
  \<open>random_stddev\<close> is the first three lines, the choice of the standard deviation;
  \<open>_add_random_noise\<close> is \<open>add_random_noise_impl\<close>.
\<close>

definition random_stddev :: "nat \<Rightarrow> int \<Rightarrow> int \<Rightarrow> int \<Rightarrow> error + int" where
  "random_stddev u low high step =
     (case py_range low high step of
        Inl e \<Rightarrow> Inl e
      | Inr n \<Rightarrow>
          (case np_random_randint u (length n) of
             Inl e \<Rightarrow> Inl e
           | Inr i \<Rightarrow> Inr (n ! i)))"

definition add_random_noise_impl ::
  "nat \<Rightarrow> (nat \<Rightarrow> real) \<Rightarrow> ndarray \<Rightarrow> int \<Rightarrow> int \<Rightarrow> int \<Rightarrow> real \<Rightarrow> bool \<Rightarrow> error + ndarray" where
  "add_random_noise_impl u z feature low high step mean clip =
     (case random_stddev u low high step of
        Inl e \<Rightarrow> Inl e
      | Inr stddev \<Rightarrow> add_noise_impl z feature (of_int stddev) mean clip)"

definition add_random_noise ::
  "int \<Rightarrow> int \<Rightarrow> int \<Rightarrow> real \<Rightarrow> bool \<Rightarrow> nat \<Rightarrow> (nat \<Rightarrow> real) \<Rightarrow> ndarray \<Rightarrow> error + ndarray" where
  "add_random_noise low high step mean clip u z feature =
     add_random_noise_impl u z feature low high step mean clip"


subsection \<open>PSNR\<close>

text \<open>
  The mean of an array and what is computed from it are numpy floating-point scalars, for
  which a division by zero is not an exception: it gives an infinity (and a warning), and
  the mean of no elements is NaN. The scalars carry these special values.
\<close>

datatype npfloat = Finite real | PosInf | NegInf | NaN

definition np_square :: "ndarray \<Rightarrow> ndarray" where
  "np_square a = a\<lparr>data := map (\<lambda>v. cast (dtype a) (v * v)) (data a)\<rparr>"

definition np_mean :: "ndarray \<Rightarrow> npfloat" where
  "np_mean a =
     (if data a = [] then NaN else Finite (sum_list (data a) / real (length (data a))))"

fun np_sqrt :: "npfloat \<Rightarrow> npfloat" where
  "np_sqrt (Finite v) = (if v < 0 then NaN else Finite (sqrt v))"
| "np_sqrt PosInf = PosInf"
| "np_sqrt NegInf = NaN"
| "np_sqrt NaN = NaN"

text \<open>\<open>c / x\<close> for a positive Python number \<open>c\<close> and a numpy scalar \<open>x\<close>.\<close>

fun np_rdiv :: "real \<Rightarrow> npfloat \<Rightarrow> npfloat" where
  "np_rdiv c (Finite v) = (if v = 0 then PosInf else Finite (c / v))"
| "np_rdiv c PosInf = Finite 0"
| "np_rdiv c NegInf = Finite 0"
| "np_rdiv c NaN = NaN"

fun np_log10 :: "npfloat \<Rightarrow> npfloat" where
  "np_log10 (Finite v) = (if v < 0 then NaN else if v = 0 then NegInf else Finite (log 10 v))"
| "np_log10 PosInf = PosInf"
| "np_log10 NegInf = NaN"
| "np_log10 NaN = NaN"

text \<open>\<open>c * x\<close> for a positive Python number \<open>c\<close>.\<close>

fun np_rmul :: "real \<Rightarrow> npfloat \<Rightarrow> npfloat" where
  "np_rmul c (Finite v) = Finite (c * v)"
| "np_rmul c x = x"

text \<open>
  The format \<open>.2f\<close>: two decimals, rounded to the nearest value, a tie to the even one
  (\<open>round_half_even\<close> above); \<open>inf\<close> and \<open>nan\<close> for the special values.
\<close>

definition digit :: "nat \<Rightarrow> char" where
  "digit d = ''0123456789'' ! (d mod 10)"

fun decimal :: "nat \<Rightarrow> string" where
  "decimal n = (if n < 10 then [digit n] else decimal (n div 10) @ [digit (n mod 10)])"

definition format_2f_real :: "real \<Rightarrow> string" where
  "format_2f_real v =
     (let n = nat (round_half_even (\<bar>v\<bar> * 100))
      in (if v < 0 then ''-'' else []) @ decimal (n div 100) @ ''.''
         @ [digit (n mod 100 div 10), digit (n mod 10)])"

fun format_2f :: "npfloat \<Rightarrow> string" where
  "format_2f (Finite v) = format_2f_real v"
| "format_2f PosInf = ''inf''"
| "format_2f NegInf = ''-inf''"
| "format_2f NaN = ''nan''"

text \<open>\<open>label[0]\<close>: the first block along the first axis.\<close>

definition np_first :: "ndarray \<Rightarrow> error + ndarray" where
  "np_first a =
     (case shape a of
        [] \<Rightarrow> Inl IndexError
      | d # s \<Rightarrow> if d = 0 then Inl IndexError
                 else Inr (a\<lparr>shape := s, data := take (prod_list s) (data a)\<rparr>))"

text \<open>
  \<^verbatim>\<open>
  def _eval_psnr(output, label, **kwargs):
      if isinstance(output, Image):
          output = img_to_array(output.convert('RGB'))
      if isinstance(label, Image):
          label = img_to_array(label.convert('RGB'))
      if label.ndim == 4:
          label = label[0]
      assert output.shape == label.shape

      mse = np.mean(np.square(output - label))
      psnr = 20 * np.log10(255 / np.sqrt(mse))
      print(f'PSNR = {psnr:.2f}dB')

  def print_psnr():
      return _eval_psnr
  \<close>
  An argument is an array or an image; \<open>rgb_array\<close> stands for
  \<open>img_to_array(x.convert('RGB'))\<close>, whose parts belong to \<open>Util/ImageProcess.py\<close> and
  to the image library. The result is the line printed.
\<close>

datatype 'img psnr_arg = ArrayArg ndarray | ImageArg 'img

fun as_array :: "('img \<Rightarrow> ndarray) \<Rightarrow> 'img psnr_arg \<Rightarrow> ndarray" where
  "as_array rgb_array (ArrayArg a) = a"
| "as_array rgb_array (ImageArg i) = rgb_array i"

definition strip_batch :: "ndarray \<Rightarrow> error + ndarray" where
  "strip_batch label = (if ndim label = 4 then np_first label else Inr label)"

definition psnr_value :: "ndarray \<Rightarrow> npfloat" where
  "psnr_value diff = np_rmul 20 (np_log10 (np_rdiv 255 (np_sqrt (np_mean (np_square diff)))))"

definition eval_psnr :: "('img \<Rightarrow> ndarray) \<Rightarrow> 'img psnr_arg \<Rightarrow> 'img psnr_arg \<Rightarrow> error + string" where
  "eval_psnr rgb_array output0 label0 =
     (let output = as_array rgb_array output0
      in case strip_batch (as_array rgb_array label0) of
           Inl e \<Rightarrow> Inl e
         | Inr label \<Rightarrow>
             if shape output \<noteq> shape label then Inl AssertionError
             else (case np_subtract output label of
                     Inl e \<Rightarrow> Inl e
                   | Inr diff \<Rightarrow> Inr (''PSNR = '' @ format_2f (psnr_value diff) @ ''dB'')))"

definition print_psnr :: "('img \<Rightarrow> ndarray) \<Rightarrow> 'img psnr_arg \<Rightarrow> 'img psnr_arg \<Rightarrow> error + string" where
  "print_psnr = eval_psnr"

subsection \<open>Luma and chroma\<close>

text \<open>
  \<open>inputs[..., lo:hi]\<close> cuts every row along the last axis; an array without axes has no
  last axis and raises \<open>IndexError\<close>. \<open>hi = None\<close> is the open end of \<open>lo:\<close>.
\<close>

definition slice_last :: "ndarray \<Rightarrow> nat \<Rightarrow> nat option \<Rightarrow> error + ndarray" where
  "slice_last a lo hi =
     (if shape a = [] then Inl IndexError
      else
        (let c = last (shape a);
             n = prod_list (butlast (shape a));
             h = (case hi of None \<Rightarrow> c | Some h \<Rightarrow> min h c)
         in Inr (a\<lparr>shape := butlast (shape a) @ [h - min lo c],
                    data := concat (map (\<lambda>row. take (h - lo) (drop lo row))
                                        (chunks n c (data a)))\<rparr>)))"

text \<open>
  \<^verbatim>\<open>
  def to_gray():
      def _gray_colored_image(inputs, **kwargs):
          return inputs[..., 0:1]
      return _gray_colored_image

  def to_uv():
      def _uv_colored_image(inputs, **kwargs):
          return inputs[..., 1:]
      return _uv_colored_image
  \<close>
\<close>

definition to_gray :: "ndarray \<Rightarrow> error + ndarray" where
  "to_gray inputs = slice_last inputs 0 (Some 1)"

definition to_uv :: "ndarray \<Rightarrow> error + ndarray" where
  "to_uv inputs = slice_last inputs 1 None"

text \<open>
  \<open>np.concatenate([a, b], axis=-1)\<close>: the arrays must have the same number of axes, at
  least one, and the same extents on all axes but the last.
\<close>

definition concatenate_last :: "ndarray \<Rightarrow> ndarray \<Rightarrow> error + ndarray" where
  "concatenate_last a b =
     (if shape a = [] \<or> shape b = [] then Inl ValueError
      else if butlast (shape a) \<noteq> butlast (shape b) then Inl ValueError
      else
        (let n = prod_list (butlast (shape a));
             ca = last (shape a);
             cb = last (shape b)
         in Inr \<lparr>shape = butlast (shape a) @ [ca + cb],
                 dtype = result_type (dtype a) (dtype b),
                 data = concat (map2 (@) (chunks n ca (data a)) (chunks n cb (data b)))\<rparr>))"


subsection \<open>PSNR as the glossary has it\<close>

text \<open>
  The peak signal-to-noise ratio of two images with peak value 255, in decibels, from
  their mean squared error. It is what \<open>psnr_value\<close>, the computation of the source,
  is compared with.
\<close>

definition mean_squared_error :: "real list \<Rightarrow> real list \<Rightarrow> real" where
  "mean_squared_error xs ys = sum_list (map2 (\<lambda>x y. (x - y)\<^sup>2) xs ys) / real (length xs)"

definition psnr_db :: "real list \<Rightarrow> real list \<Rightarrow> npfloat" where
  "psnr_db xs ys =
     (if xs = [] then NaN
      else if mean_squared_error xs ys = 0 then PosInf
      else Finite (20 * log 10 (255 / sqrt (mean_squared_error xs ys))))"

section \<open>Properties\<close>

subsection \<open>Blocks of a list\<close>

lemma chunks_Suc: "chunks (Suc n) k xs = chunks n k xs @ [take k (drop (n * k) xs)]"
  by (simp add: chunks_def)

lemma length_chunks [simp]: "length (chunks n k xs) = n"
  by (simp add: chunks_def)

lemma concat_chunks_take: "concat (chunks n k xs) = take (n * k) xs"
proof (induction n)
  case 0
  show ?case by (simp add: chunks_def)
next
  case (Suc n)
  have "take (n * k) xs @ take k (drop (n * k) xs) = take (n * k + k) xs"
    by (simp add: take_add)
  with Suc show ?case by (simp add: chunks_Suc add.commute)
qed

lemma concat_chunks: "length xs = n * k \<Longrightarrow> concat (chunks n k xs) = xs"
  by (simp add: concat_chunks_take)

lemma length_chunk:
  assumes "length xs = n * k" "c \<in> set (chunks n k xs)"
  shows "length c = k"
proof -
  from assms(2) obtain i where i: "i < n" and c: "c = take k (drop (i * k) xs)"
    by (auto simp: chunks_def)
  from i have "Suc i * k \<le> n * k" by (intro mult_le_mono1) simp
  then have "i * k + k \<le> length xs" using assms(1) by simp
  then show ?thesis using c by simp
qed

subsection \<open>Operations on arrays of one shape\<close>

lemma broadcast_data_same: "length xs = prod_list s \<Longrightarrow> broadcast_data s s xs = xs"
proof (induction s arbitrary: xs)
  case Nil
  then show ?case by simp
next
  case (Cons d s)
  have len: "length xs = d * prod_list s" using Cons.prems by simp
  have "map (broadcast_data s s) (chunks d (prod_list s) xs) = chunks d (prod_list s) xs"
    by (rule map_idI) (rule Cons.IH, rule length_chunk[OF len])
  then show ?case using concat_chunks[OF len] by simp
qed

lemma broadcast_rev_same: "broadcast_rev s s = Some s"
  by (induction s) auto

lemma broadcast_shapes_same: "broadcast_shapes s s = Some s"
  by (simp add: broadcast_shapes_def broadcast_rev_same)

lemma result_type_same: "result_type d d = d"
  by (cases d) auto

lemma broadcast_to_same:
  "length (data a) = prod_list (shape a) \<Longrightarrow> broadcast_to (shape a) a = data a"
  by (simp add: broadcast_to_def broadcast_data_same)

lemma map2_sub_zero:
  "list_all (\<lambda>v. cast d v = v) xs \<Longrightarrow>
   map2 (\<lambda>x y. cast d (x - y)) xs (replicate (length xs) 0) = xs"
  by (induction xs) auto

lemma np_subtract_zeros: "wf_array a \<Longrightarrow> np_subtract a (np_zeros_like a) = Inr a"
  unfolding wf_array_def np_subtract_def np_binop_def np_zeros_like_def
  using map2_sub_zero[of "dtype a" "data a"]
  by (simp add: broadcast_shapes_same result_type_same broadcast_to_def broadcast_data_same)

subsection \<open>Residual subtraction\<close>

text \<open>
  What \<open>_sub_residual\<close> does for each kind of \<open>output\<close>: without an output, and with an
  empty list, the input comes back; with a non-empty list the first entry is subtracted;
  with an array of one non-zero element the array is subtracted; with an array of more
  than one element the \<open>or\<close> raises before anything is subtracted.
\<close>

lemma sub_residual_None: "wf_array a \<Longrightarrow> sub_residual a PyNone = Inr a"
  by (simp add: sub_residual_def py_or_def np_subtract_zeros)

lemma sub_residual_Nil: "wf_array a \<Longrightarrow> sub_residual a (PyList []) = Inr a"
  by (simp add: sub_residual_def py_or_def np_subtract_zeros)

lemma sub_residual_list: "sub_residual a (PyList (r # rs)) = np_subtract a r"
  by (simp add: sub_residual_def py_or_def)

lemma sub_residual_array_one:
  "data b = [x] \<Longrightarrow> x \<noteq> 0 \<Longrightarrow> sub_residual a (PyArr b) = np_subtract a b"
  by (simp add: sub_residual_def py_or_def)

lemma sub_residual_array_many:
  "1 < length (data b) \<Longrightarrow> sub_residual a (PyArr b) = Inl ValueError"
  by (cases "data b" rule: array_truth.cases) (simp_all add: sub_residual_def py_or_def)

text \<open>
  Claim C1: for every input array \<open>A\<close> the callable returned by \<open>reduce_residual\<close>
  returns \<open>A\<close> when \<open>output\<close> is \<open>None\<close>, \<open>A - output[0]\<close> when \<open>output\<close> is a list,
  and \<open>A - output\<close> when \<open>output\<close> is a single array. The last part fails on the code:
  for the input \<open>[3, 5]\<close> and the output array \<open>[1, 2]\<close> the callable raises
  \<open>ValueError\<close>, where the difference \<open>A - output\<close> is the array \<open>[2, 3]\<close>.
\<close>

theorem reduce_residual_array_output_raises:
  "reduce_residual \<lparr>shape = [2], dtype = Float32, data = [3, 5]\<rparr>
     (PyArr \<lparr>shape = [2], dtype = Float32, data = [1, 2]\<rparr>) = Inl ValueError
   \<and> np_subtract \<lparr>shape = [2], dtype = Float32, data = [3, 5]\<rparr>
       \<lparr>shape = [2], dtype = Float32, data = [1, 2]\<rparr>
     = Inr \<lparr>shape = [2], dtype = Float32, data = [2, 3]\<rparr>"
  by (simp add: reduce_residual_def sub_residual_def py_or_def np_subtract_def np_binop_def
      broadcast_shapes_def broadcast_to_def chunks_def upt_rec)

subsection \<open>Learning-rate decay\<close>

lemma powi_floor_powr:
  assumes "0 < (x::real)" and "y = of_int \<lfloor>y\<rfloor>"
  shows "x powi \<lfloor>y\<rfloor> = x powr y"
proof -
  from assms(1) have "x powr real_of_int \<lfloor>y\<rfloor> = x powi \<lfloor>y\<rfloor>"
    by (intro powr_real_of_int') auto
  with assms(2) show ?thesis by simp
qed

lemma py_pow_pos: "0 < x \<Longrightarrow> py_pow x y = Inr (PyFloat (x powr y))"
  by (auto simp: py_pow_def powi_floor_powr)

text \<open>
  Claim C2: \<open>lr_decay(method, lr, ...)\<close> raises the invalid-argument error if and only
  if \<open>method\<close> is not one of \<open>exp\<close>, \<open>poly\<close>, \<open>stair\<close>; for those three names it
  returns a decay callable without raising. Both parts fail when an extra keyword
  repeats a name that the function binds itself: with the extra keyword \<open>start_lr\<close> a
  known method raises \<open>TypeError\<close> in the call of \<open>partial\<close>, and with the extra
  keyword \<open>lr\<close> an unknown method raises \<open>TypeError\<close>, not \<open>ValueError\<close>, when the
  parameters are bound.
\<close>

theorem lr_decay_repeated_keyword_raises:
  "lr_decay ''exp'' 1 [(''start_lr'', 2)] = Inl TypeError
   \<and> lr_decay ''nope'' 1 [(''lr'', 3)] = Inl TypeError"
  by (simp add: lr_decay_def mk_partial_def)

text \<open>
  Claim C2, amended: when the extra keywords repeat none of the names \<open>method\<close>,
  \<open>lr\<close> and \<open>start_lr\<close>, \<open>lr_decay\<close> raises \<open>ValueError\<close> if and only if \<open>method\<close>
  is not one of \<open>exp\<close>, \<open>poly\<close>, \<open>stair\<close>, and for those three names it returns the
  decay callable of that name, with \<open>start_lr\<close> bound to \<open>lr\<close> beside the extra
  keywords. An extra keyword \<open>method\<close> or \<open>lr\<close>, and an extra keyword \<open>start_lr\<close>
  with one of the three names, raises \<open>TypeError\<close>; so over all calls \<open>ValueError\<close> is
  raised exactly for an unknown method without an extra keyword \<open>method\<close> or \<open>lr\<close>.
\<close>

theorem lr_decay_raises_iff_unknown_method:
  "(lr_decay method lr kw = Inl ValueError \<longleftrightarrow>
      method \<notin> {''exp'', ''poly'', ''stair''}
      \<and> ''method'' \<notin> set (map fst kw) \<and> ''lr'' \<notin> set (map fst kw))
   \<and> (method \<in> {''exp'', ''poly'', ''stair''}
        \<and> ''method'' \<notin> set (map fst kw) \<and> ''lr'' \<notin> set (map fst kw)
        \<and> ''start_lr'' \<notin> set (map fst kw) \<longrightarrow>
        lr_decay method lr kw
          = Inr \<lparr>func = (if method = ''exp'' then ExponentialDecay
                          else if method = ''poly'' then PolyDecay else StairDecay),
                  bound_kw = (''start_lr'', lr) # kw\<rparr>)
   \<and> (''method'' \<in> set (map fst kw) \<or> ''lr'' \<in> set (map fst kw)
        \<or> (method \<in> {''exp'', ''poly'', ''stair''} \<and> ''start_lr'' \<in> set (map fst kw)) \<longrightarrow>
        lr_decay method lr kw = Inl TypeError)"
proof (intro conjI impI)
  show "lr_decay method lr kw = Inl ValueError \<longleftrightarrow>
      method \<notin> {''exp'', ''poly'', ''stair''}
      \<and> ''method'' \<notin> set (map fst kw) \<and> ''lr'' \<notin> set (map fst kw)"
    by (simp add: lr_decay_def mk_partial_def)
next
  assume "method \<in> {''exp'', ''poly'', ''stair''}
        \<and> ''method'' \<notin> set (map fst kw) \<and> ''lr'' \<notin> set (map fst kw)
        \<and> ''start_lr'' \<notin> set (map fst kw)"
  then show "lr_decay method lr kw
          = Inr \<lparr>func = (if method = ''exp'' then ExponentialDecay
                          else if method = ''poly'' then PolyDecay else StairDecay),
                  bound_kw = (''start_lr'', lr) # kw\<rparr>"
    by (auto simp add: lr_decay_def mk_partial_def)
next
  assume "''method'' \<in> set (map fst kw) \<or> ''lr'' \<in> set (map fst kw)
        \<or> (method \<in> {''exp'', ''poly'', ''stair''} \<and> ''start_lr'' \<in> set (map fst kw))"
  then show "lr_decay method lr kw = Inl TypeError"
    by (auto simp add: lr_decay_def mk_partial_def)
qed

theorem lr_decay_raises_iff_unknown_method_witness:
  "lr_decay ''nope'' 1 [(''decay_step'', 10)] = Inl ValueError
   \<and> lr_decay ''poly'' 1 [(''end_lr'', 0)]
       = Inr \<lparr>func = PolyDecay, bound_kw = [(''start_lr'', 1), (''end_lr'', 0)]\<rparr>
   \<and> lr_decay ''stair'' 1 [(''method'', 0)] = Inl TypeError"
  using lr_decay_raises_iff_unknown_method [of "''nope''" 1 "[(''decay_step'', 10)]"]
    lr_decay_raises_iff_unknown_method [of "''poly''" 1 "[(''end_lr'', 0)]"]
    lr_decay_raises_iff_unknown_method [of "''stair''" 1 "[(''method'', 0)]"]
  by simp

text \<open>
  Claim C4: the callable returned by \<open>lr_decay('exp', lr=1.0, decay_step=10,
  decay_rate=0.5)\<close> returns 1.0 at \<open>steps=0\<close> and \<open>decay_rate\<close>, that is 0.5, at
  \<open>steps=decay_step\<close>; more generally the exponential callable computes
  \<open>start_lr * decay_rate ^ (steps / decay_step)\<close>. The callable is called with the
  current rate first and \<open>epochs\<close> and \<open>steps\<close> as keywords, or with all three as
  keywords; the general formula is stated for a positive \<open>decay_rate\<close> and a non-zero
  \<open>decay_step\<close>, where the power is a real number, and in every case the callable is
  \<open>_exponential_decay\<close> with \<open>start_lr\<close>, \<open>decay_step\<close> and \<open>decay_rate\<close> as bound.
\<close>

theorem exponential_decay_callable:
  "(\<exists>p. lr_decay ''exp'' 1 [(''decay_step'', 10), (''decay_rate'', 1 / 2)] = Inr p
        \<and> call_partial p [l] [(''epochs'', e), (''steps'', 0)] = Inr (PyFloat 1)
        \<and> call_partial p [l] [(''epochs'', e), (''steps'', 10)] = Inr (PyFloat (1 / 2)))
   \<and> (decay_step \<noteq> 0 \<and> 0 < decay_rate \<longrightarrow>
        (\<exists>p. lr_decay ''exp'' start_lr
                 [(''decay_step'', decay_step), (''decay_rate'', decay_rate)] = Inr p
           \<and> call_partial p [l] [(''epochs'', e), (''steps'', steps)]
               = Inr (PyFloat (start_lr * decay_rate powr (steps / decay_step)))
           \<and> call_partial p [] [(''lr'', l), (''epochs'', e), (''steps'', steps)]
               = Inr (PyFloat (start_lr * decay_rate powr (steps / decay_step)))))
   \<and> (\<exists>p. lr_decay ''exp'' start_lr
              [(''decay_step'', decay_step), (''decay_rate'', decay_rate)] = Inr p
         \<and> call_partial p [l] [(''epochs'', e), (''steps'', steps)]
             = exponential_decay l start_lr e steps decay_step decay_rate)"
proof (intro conjI impI)
  show "\<exists>p. lr_decay ''exp'' 1 [(''decay_step'', 10), (''decay_rate'', 1 / 2)] = Inr p
        \<and> call_partial p [l] [(''epochs'', e), (''steps'', 0)] = Inr (PyFloat 1)
        \<and> call_partial p [l] [(''epochs'', e), (''steps'', 10)] = Inr (PyFloat (1 / 2))"
    by (simp add: lr_decay_def mk_partial_def call_partial_def bind_args_def
        exponential_decay_def py_truediv_def py_pow_def)
next
  assume "decay_step \<noteq> 0 \<and> 0 < decay_rate"
  then show "\<exists>p. lr_decay ''exp'' start_lr
                   [(''decay_step'', decay_step), (''decay_rate'', decay_rate)] = Inr p
           \<and> call_partial p [l] [(''epochs'', e), (''steps'', steps)]
               = Inr (PyFloat (start_lr * decay_rate powr (steps / decay_step)))
           \<and> call_partial p [] [(''lr'', l), (''epochs'', e), (''steps'', steps)]
               = Inr (PyFloat (start_lr * decay_rate powr (steps / decay_step)))"
    by (simp add: lr_decay_def mk_partial_def call_partial_def bind_args_def
        exponential_decay_def py_truediv_def py_pow_pos)
next
  show "\<exists>p. lr_decay ''exp'' start_lr
              [(''decay_step'', decay_step), (''decay_rate'', decay_rate)] = Inr p
         \<and> call_partial p [l] [(''epochs'', e), (''steps'', steps)]
             = exponential_decay l start_lr e steps decay_step decay_rate"
    by (simp add: lr_decay_def mk_partial_def call_partial_def bind_args_def)
qed

theorem exponential_decay_callable_witness:
  "\<exists>p. lr_decay ''exp'' 3 [(''decay_step'', 2), (''decay_rate'', 4)] = Inr p
       \<and> call_partial p [0] [(''epochs'', 0), (''steps'', 1)] = Inr (PyFloat 6)"
  using exponential_decay_callable [of 0 0 2 4 3 1]
  by auto

text \<open>
  Two calls that differ only in the current rate and in \<open>epochs\<close> bind the other
  parameters to the same values, and fail to bind together.
\<close>

lemma those_map:
  "those (map f ps) =
     (if \<forall>p\<in>set ps. f p \<noteq> None then Some (map (\<lambda>p. the (f p)) ps) else None)"
  by (induction ps) (auto split: option.splits)

lemma map_of_None_keys:
  "map fst a = map fst b \<Longrightarrow> (map_of a k = None) = (map_of b k = None)"
  by (metis map_of_eq_None_iff list.set_map)

lemma lookup_agree:
  assumes "length args1 = length args2" "tl args1 = tl args2"
    "map fst kw1 = map fst kw2"
    "\<forall>k. k \<noteq> ''lr'' \<and> k \<noteq> ''epochs'' \<longrightarrow> map_of kw1 k = map_of kw2 k"
    "hd ps = ''lr''" "distinct ps"
  shows "k \<noteq> ''lr'' \<Longrightarrow> k \<noteq> ''epochs'' \<Longrightarrow>
           map_of (zip ps args1 @ kw1 @ b) k = map_of (zip ps args2 @ kw2 @ b) k"
    and "(map_of (zip ps args1 @ kw1 @ b) k = None) = (map_of (zip ps args2 @ kw2 @ b) k = None)"
proof -
  have keys: "map fst (zip ps args1 @ kw1 @ b) = map fst (zip ps args2 @ kw2 @ b)"
    using assms(1,3) by (simp add: map_fst_zip_take)
  show "(map_of (zip ps args1 @ kw1 @ b) k = None) = (map_of (zip ps args2 @ kw2 @ b) k = None)"
    by (rule map_of_None_keys[OF keys])
  assume k: "k \<noteq> ''lr''" "k \<noteq> ''epochs''"
  have z: "map_of (zip ps args1) k = map_of (zip ps args2) k"
  proof (cases ps)
    case Nil
    then show ?thesis by simp
  next
    case (Cons q qs)
    with assms(5) have q: "q = ''lr''" by simp
    show ?thesis
    proof (cases args1)
      case Nil
      with assms(1) show ?thesis by simp
    next
      case (Cons a as)
      with assms(1,2) obtain a' where "args2 = a' # as" by (cases args2) auto
      with Cons \<open>ps = q # qs\<close> q k show ?thesis by simp
    qed
  qed
  show "map_of (zip ps args1 @ kw1 @ b) k = map_of (zip ps args2 @ kw2 @ b) k"
  proof -
    from assms(4) k have "map_of kw1 k = map_of kw2 k" by blast
    with z show ?thesis by (simp add: map_add_def split: option.splits)
  qed
qed

lemma exponential_decay_indep:
  "exponential_decay lr start_lr epochs steps decay_step decay_rate =
   exponential_decay lr' start_lr epochs' steps decay_step decay_rate"
  by (simp add: exponential_decay_def)

lemma poly_decay_indep:
  "poly_decay lr start_lr end_lr epochs steps decay_step pwr =
   poly_decay lr' start_lr end_lr epochs' steps decay_step pwr"
  by (simp add: poly_decay_def)

lemma stair_decay_indep:
  "stair_decay lr start_lr epochs steps decay_step decay_rate =
   stair_decay lr' start_lr epochs' steps decay_step decay_rate"
  by (simp add: stair_decay_def)

lemma apply_decay_indep:
  assumes "\<And>k. k \<noteq> ''lr'' \<Longrightarrow> k \<noteq> ''epochs'' \<Longrightarrow> f k = g k"
  shows "apply_decay fn (map (\<lambda>p. the (f p)) (params fn)) =
         apply_decay fn (map (\<lambda>p. the (g p)) (params fn))"
proof (cases fn)
  case ExponentialDecay
  then show ?thesis
    using exponential_decay_indep[of "the (f ''lr'')" _ "the (f ''epochs'')" _ _ _
        "the (g ''lr'')" "the (g ''epochs'')"]
    by (simp add: assms)
next
  case PolyDecay
  then show ?thesis
    using poly_decay_indep[of "the (f ''lr'')" _ _ "the (f ''epochs'')" _ _ _
        "the (g ''lr'')" "the (g ''epochs'')"]
    by (simp add: assms)
next
  case StairDecay
  then show ?thesis
    using stair_decay_indep[of "the (f ''lr'')" _ "the (f ''epochs'')" _ _ _
        "the (g ''lr'')" "the (g ''epochs'')"]
    by (simp add: assms)
qed

lemma bound_call_agree:
  assumes n: "\<And>k. (f k = None) = (g k = None)"
    and a: "\<And>k. k \<noteq> ''lr'' \<Longrightarrow> k \<noteq> ''epochs'' \<Longrightarrow> f k = g k"
  shows "(case those (map f (params fn)) of
            None \<Rightarrow> Inl TypeError | Some vs \<Rightarrow> apply_decay fn vs)
       = (case those (map g (params fn)) of
            None \<Rightarrow> Inl TypeError | Some vs \<Rightarrow> apply_decay fn vs)"
proof -
  have eq: "(\<forall>p\<in>set (params fn). f p \<noteq> None) = (\<forall>p\<in>set (params fn). g p \<noteq> None)"
    using n by simp
  show ?thesis
  proof (cases "\<forall>p\<in>set (params fn). f p \<noteq> None")
    case True
    with eq have "\<forall>p\<in>set (params fn). g p \<noteq> None" by simp
    then have tg: "those (map g (params fn)) = Some (map (\<lambda>p. the (g p)) (params fn))"
      by (simp add: those_map)
    from True have tf: "those (map f (params fn)) = Some (map (\<lambda>p. the (f p)) (params fn))"
      by (simp add: those_map)
    have "apply_decay fn (map (\<lambda>p. the (f p)) (params fn)) =
          apply_decay fn (map (\<lambda>p. the (g p)) (params fn))"
      by (rule apply_decay_indep) (rule a)
    with tf tg show ?thesis by simp
  next
    case False
    with eq have "\<not> (\<forall>p\<in>set (params fn). g p \<noteq> None)" by simp
    then have tg: "those (map g (params fn)) = None"
      by (simp add: those_map)
    from False have tf: "those (map f (params fn)) = None"
      by (simp add: those_map)
    from tf tg show ?thesis by simp
  qed
qed

lemma call_partial_indep:
  assumes "length args1 = length args2" "tl args1 = tl args2"
    "map fst kw1 = map fst kw2"
    "\<forall>k. k \<noteq> ''lr'' \<and> k \<noteq> ''epochs'' \<longrightarrow> map_of kw1 k = map_of kw2 k"
  shows "call_partial p args1 kw1 = call_partial p args2 kw2"
proof -
  let ?ps = "params (func p)"
  let ?f = "map_of (zip ?ps args1 @ kw1 @ bound_kw p)"
  let ?g = "map_of (zip ?ps args2 @ kw2 @ bound_kw p)"
  have hd: "hd ?ps = ''lr''" and d: "distinct ?ps" by (cases "func p"; simp)+
  have a: "\<And>k. k \<noteq> ''lr'' \<Longrightarrow> k \<noteq> ''epochs'' \<Longrightarrow> ?f k = ?g k"
    and n: "\<And>k. (?f k = None) = (?g k = None)"
    using lookup_agree[OF assms hd d] by blast+
  have keys: "map fst (kw1 @ bound_kw p) = map fst (kw2 @ bound_kw p)"
    using assms(3) by simp
  have "(case those (map ?f ?ps) of None \<Rightarrow> Inl TypeError | Some vs \<Rightarrow> apply_decay (func p) vs)
      = (case those (map ?g ?ps) of None \<Rightarrow> Inl TypeError | Some vs \<Rightarrow> apply_decay (func p) vs)"
    by (rule bound_call_agree) (rule n, rule a)
  then show ?thesis
    using assms(1) keys
    by (simp add: call_partial_def bind_args_def del: map_append map_of_append
        split: option.splits)
qed

text \<open>
  Claim C10: the learning rate returned by every decay callable that \<open>lr_decay\<close> produces
  (\<open>exp\<close>, \<open>poly\<close> or \<open>stair\<close>) does not depend on the current rate \<open>lr\<close> and on
  \<open>epochs\<close> passed at the call: two invocations that differ only in these two arguments
  (the first positional argument, or the keywords \<open>lr\<close> and \<open>epochs\<close>) return the same
  value, or raise the same exception.
\<close>

theorem decay_independent_of_lr_and_epochs:
  assumes "lr_decay method start_lr kw = Inr p"
    and "length args1 = length args2" and "tl args1 = tl args2"
    and "map fst kw1 = map fst kw2"
    and "\<forall>k. k \<noteq> ''lr'' \<and> k \<noteq> ''epochs'' \<longrightarrow> map_of kw1 k = map_of kw2 k"
  shows "call_partial p args1 kw1 = call_partial p args2 kw2"
  using assms(2-5) by (rule call_partial_indep)

theorem decay_independent_of_lr_and_epochs_witness:
  "lr_decay ''stair'' 1 [(''decay_step'', 2), (''decay_rate'', 1 / 2)]
     = Inr \<lparr>func = StairDecay,
            bound_kw = [(''start_lr'', 1), (''decay_step'', 2), (''decay_rate'', 1 / 2)]\<rparr>
   \<and> call_partial \<lparr>func = StairDecay,
         bound_kw = [(''start_lr'', 1), (''decay_step'', 2), (''decay_rate'', 1 / 2)]\<rparr>
        [7] [(''epochs'', 9), (''steps'', 4)] = Inr (PyFloat (1 / 4))"
proof -
  let ?p = "\<lparr>func = StairDecay,
              bound_kw = [(''start_lr'', 1), (''decay_step'', 2), (''decay_rate'', 1 / 2)]\<rparr>"
  have mk: "lr_decay ''stair'' 1 [(''decay_step'', 2), (''decay_rate'', 1 / 2)] = Inr ?p"
    by (simp add: lr_decay_def mk_partial_def)
  have one: "call_partial ?p [1] [(''epochs'', 3), (''steps'', 4)] = Inr (PyFloat (1 / 4))"
    by (simp add: call_partial_def bind_args_def stair_decay_def py_floordiv_def py_pow_def
        power_int_def power2_eq_square)
  have "call_partial ?p [1] [(''epochs'', 3), (''steps'', 4)]
      = call_partial ?p [7] [(''epochs'', 9), (''steps'', 4)]"
    by (rule decay_independent_of_lr_and_epochs [OF mk]) simp_all
  with mk one show ?thesis by simp
qed


subsection \<open>Noise\<close>


lemma np_binop_same_shape:
  assumes "shape a = shape b" "length (data a) = prod_list (shape a)"
    "length (data b) = prod_list (shape b)"
  shows "np_binop f a b =
     Inr \<lparr>shape = shape a, dtype = result_type (dtype a) (dtype b),
          data = map2 (\<lambda>x y. cast (result_type (dtype a) (dtype b)) (f x y)) (data a) (data b)\<rparr>"
proof -
  have "broadcast_to (shape a) a = data a" "broadcast_to (shape a) b = data b"
    using assms by (simp_all add: broadcast_to_def broadcast_data_same)
  then show ?thesis
    using assms(1) broadcast_shapes_same[of "shape b"]
    by (simp add: np_binop_def Let_def)
qed










lemma np_clip_range: "lo \<le> hi \<Longrightarrow> list_all (\<lambda>v. lo \<le> v \<and> v \<le> hi) (data (np_clip a lo hi))"
  by (auto simp: np_clip_def list_all_iff)

lemma add_noise_impl_clipped:
  "add_noise_impl z feature stddev mean True = Inr r \<Longrightarrow>
   list_all (\<lambda>v. 0 \<le> v \<and> v \<le> 255) (data r)"
  using np_clip_range[of 0 255]
  by (auto simp: add_noise_impl_def split: sum.splits)

lemma div_mult_le_int: "0 < (b::int) \<Longrightarrow> a div b * b \<le> a"
proof -
  assume "0 < b"
  then have "0 \<le> a mod b" by simp
  moreover have "a = a div b * b + a mod b" by simp
  ultimately show ?thesis by linarith
qed

lemma range_len_bounds:
  assumes "k < range_len low high step"
  shows "(0 < step \<longrightarrow> low \<le> low + int k * step \<and> low + int k * step < high)
       \<and> (step < 0 \<longrightarrow> high < low + int k * step \<and> low + int k * step \<le> low)"
proof (intro conjI impI)
  assume s: "0 < step"
  with assms have k: "int k \<le> (high - low - 1) div step"
    by (auto simp: range_len_def split: if_splits)
  from s show "low \<le> low + int k * step" by simp
  have "int k * step \<le> ((high - low - 1) div step) * step"
    using k s by (simp add: mult_right_mono)
  also have "\<dots> \<le> high - low - 1"
    using s by (rule div_mult_le_int)
  finally show "low + int k * step < high" by simp
next
  assume s: "step < 0"
  with assms have k: "int k \<le> (low - high - 1) div (- step)"
    by (auto simp: range_len_def split: if_splits)
  from s show "low + int k * step \<le> low" by (simp add: mult_nonneg_nonpos)
  have "int k * (- step) \<le> ((low - high - 1) div (- step)) * (- step)"
    using k s by (simp add: mult_right_mono)
  also have "\<dots> \<le> low - high - 1"
    using s by (intro div_mult_le_int) simp
  finally show "high < low + int k * step" by simp
qed

lemma random_stddev_range:
  assumes "random_stddev u low high step = Inr sd"
  shows "\<exists>k. sd = low + int k * step \<and>
          (0 < step \<longrightarrow> low \<le> sd \<and> sd < high) \<and> (step < 0 \<longrightarrow> high < sd \<and> sd \<le> low)"
proof -
  let ?n = "range_len low high step"
  from assms have n: "?n \<noteq> 0" and sd: "sd = low + int (u mod ?n) * step"
    by (auto simp: random_stddev_def py_range_def np_random_randint_def split: if_splits)
  from n have "u mod ?n < ?n" by simp
  from range_len_bounds[OF this] sd show ?thesis by blast
qed

text \<open>
  Claim C6: with \<open>clip=True\<close> every element of the array returned by the callable of
  \<open>add_noise\<close> or of \<open>add_random_noise\<close> lies in \<open>[0, 255]\<close>, and the standard deviation
  used by \<open>add_random_noise\<close> is drawn from the values \<open>low, low + step, ...\<close> strictly
  below \<open>high\<close>. The last part fails for a negative step: \<open>range(10, 0, -1)\<close> counts down
  from 10, and the draw 0 picks the standard deviation 10, which is not below \<open>high = 0\<close>.
\<close>

theorem random_stddev_negative_step:
  "random_stddev 0 10 0 (- 1) = Inr 10 \<and> \<not> (10::int) < 0"
  by (simp add: random_stddev_def py_range_def range_len_def np_random_randint_def)

text \<open>
  Claim C6, amended: with \<open>clip=True\<close> every element of the array returned by the
  callable of \<open>add_noise\<close> or of \<open>add_random_noise\<close> lies in \<open>[0, 255]\<close>, for every
  feature array, draw of the noise, standard deviation and mean; and
  \<open>add_random_noise\<close> is \<open>add_noise\<close> with a standard deviation of the form
  \<open>low + k * step\<close> that is at least \<open>low\<close> and strictly below \<open>high\<close> for a
  positive step, and at most \<open>low\<close> and strictly above \<open>high\<close> for a negative step.
\<close>

theorem noise_clipped_and_stddev_in_range:
  "(add_noise sigma mean True z feature = Inr r \<longrightarrow>
      list_all (\<lambda>v. 0 \<le> v \<and> v \<le> 255) (data r))
   \<and> (add_random_noise low high step mean True u z feature = Inr r \<longrightarrow>
      list_all (\<lambda>v. 0 \<le> v \<and> v \<le> 255) (data r))
   \<and> (add_random_noise low high step mean clip u z feature = Inr r \<longrightarrow>
      (\<exists>sd k. random_stddev u low high step = Inr sd
         \<and> add_noise (of_int sd) mean clip z feature = Inr r
         \<and> sd = low + int k * step
         \<and> (0 < step \<longrightarrow> low \<le> sd \<and> sd < high)
         \<and> (step < 0 \<longrightarrow> high < sd \<and> sd \<le> low)))"
proof (intro conjI impI)
  assume "add_noise sigma mean True z feature = Inr r"
  then show "list_all (\<lambda>v. 0 \<le> v \<and> v \<le> 255) (data r)"
    by (simp add: add_noise_def add_noise_impl_clipped)
next
  assume "add_random_noise low high step mean True u z feature = Inr r"
  then show "list_all (\<lambda>v. 0 \<le> v \<and> v \<le> 255) (data r)"
    by (auto simp: add_random_noise_def add_random_noise_impl_def
        split: sum.splits intro: add_noise_impl_clipped)
next
  assume "add_random_noise low high step mean clip u z feature = Inr r"
  then obtain sd where sd: "random_stddev u low high step = Inr sd"
    and r: "add_noise (of_int sd) mean clip z feature = Inr r"
    by (auto simp: add_random_noise_def add_random_noise_impl_def add_noise_def
        split: sum.splits)
  from random_stddev_range[OF sd] sd r
  show "\<exists>sd k. random_stddev u low high step = Inr sd
         \<and> add_noise (of_int sd) mean clip z feature = Inr r
         \<and> sd = low + int k * step
         \<and> (0 < step \<longrightarrow> low \<le> sd \<and> sd < high)
         \<and> (step < 0 \<longrightarrow> high < sd \<and> sd \<le> low)"
    by blast
qed

theorem noise_clipped_and_stddev_in_range_witness:
  "add_random_noise 0 10 3 0 True 5 (\<lambda>i. 100) \<lparr>shape = [2], dtype = UInt8, data = [3, 250]\<rparr>
     = Inr \<lparr>shape = [2], dtype = Float64, data = [255, 255]\<rparr>
   \<and> list_all (\<lambda>v. 0 \<le> v \<and> v \<le> 255) [255, 255 :: real]
   \<and> (\<exists>sd. random_stddev 5 0 10 3 = Inr sd \<and> 0 \<le> sd \<and> sd < 10)"
proof -
  have ex: "add_random_noise 0 10 3 0 True 5 (\<lambda>i. 100)
              \<lparr>shape = [2], dtype = UInt8, data = [3, 250]\<rparr>
            = Inr \<lparr>shape = [2], dtype = Float64, data = [255, 255]\<rparr>"
    by (simp add: add_random_noise_def add_random_noise_impl_def random_stddev_def
        py_range_def range_len_def np_random_randint_def add_noise_impl_def
        np_random_normal_def np_add_def np_binop_def broadcast_shapes_def
        broadcast_to_def astype_float_def chunks_def upt_rec np_clip_def)
  from noise_clipped_and_stddev_in_range
    [of 0 0 "\<lambda>i. 100" "\<lparr>shape = [2], dtype = UInt8, data = [3, 250]\<rparr>"
        "\<lparr>shape = [2], dtype = Float64, data = [255, 255]\<rparr>" 0 10 3 5 True] ex
  show ?thesis by auto
qed


subsection \<open>Normalising an array to an image\<close>




text \<open>
  An axis that moves into the place of a removed one is not looked at again: of two
  leading axes of extent 1 the pass removes the first only.
\<close>

lemma squeeze_loop_skips_next_axis:
  "squeeze_loop [0..<4] \<lparr>shape = [1, 1, 5, 5], dtype = Float32, data = xs\<rparr>
     = \<lparr>shape = [1, 5, 5], dtype = Float32, data = xs\<rparr>"
  by (simp add: upt_rec np_squeeze_def ndim_def)










subsection \<open>PSNR\<close>

lemma np_subtract_same_shape:
  assumes "shape a = shape b" "length (data a) = prod_list (shape a)"
    "length (data b) = prod_list (shape b)"
  shows "np_subtract a b =
     Inr \<lparr>shape = shape a, dtype = result_type (dtype a) (dtype b),
          data = map2 (\<lambda>x y. cast (result_type (dtype a) (dtype b)) (x - y)) (data a) (data b)\<rparr>"
  unfolding np_subtract_def using assms by (rule np_binop_same_shape)

lemma np_subtract_total: "shape a = shape b \<Longrightarrow> \<exists>d. np_subtract a b = Inr d"
  using broadcast_shapes_same[of "shape b"]
  by (simp add: np_subtract_def np_binop_def Let_def)

lemma strip_batch_error:
  "strip_batch a = Inl e \<longleftrightarrow> ndim a = 4 \<and> hd (shape a) = 0 \<and> e = IndexError"
  by (cases "shape a") (auto simp: strip_batch_def np_first_def ndim_def)

lemma strip_batch_shape:
  "strip_batch a = Inr b \<Longrightarrow> shape b = (if ndim a = 4 then tl (shape a) else shape a)"
  by (cases "shape a") (auto simp: strip_batch_def np_first_def ndim_def split: if_splits)

lemma cast_zero: "cast d 0 = 0"
  by (cases d) simp_all

lemma sum_list_zeros: "sum_list (map (\<lambda>x. (0::real)) xs) = 0"
  by (induction xs) auto

lemma psnr_value_zero:
  assumes "data d \<noteq> []" "\<forall>v\<in>set (data d). v = 0"
  shows "psnr_value d = PosInf"
proof -
  have "map (\<lambda>v. cast (dtype d) (v * v)) (data d) = map (\<lambda>v. 0) (data d)"
    by (rule map_cong[OF refl]) (use assms(2) in \<open>auto simp: cast_zero\<close>)
  then have sq: "data (np_square d) = map (\<lambda>v. 0) (data d)"
    by (simp add: np_square_def)
  have "np_mean (np_square d) = Finite 0"
    unfolding np_mean_def sq using assms(1) by (simp add: sum_list_zeros)
  then show ?thesis by (simp add: psnr_value_def)
qed

lemma psnr_identical:
  assumes "wf_array a" "data a \<noteq> []"
  shows "\<exists>d. np_subtract a a = Inr d \<and> psnr_value d = PosInf"
proof -
  have len: "length (data a) = prod_list (shape a)" using assms(1) by (simp add: wf_array_def)
  let ?d = "\<lparr>shape = shape a, dtype = result_type (dtype a) (dtype a),
          data = map2 (\<lambda>x y. cast (result_type (dtype a) (dtype a)) (x - y)) (data a) (data a)\<rparr>"
  have s: "np_subtract a a = Inr ?d"
    by (rule np_subtract_same_shape) (simp_all add: len)
  have z: "\<forall>v\<in>set (data ?d). v = 0"
    by (auto simp: zip_same cast_zero)
  have ne: "data ?d \<noteq> []" using assms(2) by simp
  from psnr_value_zero[OF ne z] s show ?thesis by blast
qed

lemma cast_float: "d = Float32 \<or> d = Float64 \<Longrightarrow> cast d v = v"
  by auto

lemma mean_squared_error_nonneg: "0 \<le> mean_squared_error xs ys"
proof -
  have "0 \<le> sum_list (map2 (\<lambda>x y. (x - y)\<^sup>2) xs ys)"
    by (rule sum_list_nonneg) auto
  then show ?thesis by (simp add: mean_squared_error_def)
qed

lemma psnr_of_mse:
  assumes "0 \<le> m"
  shows "np_rmul 20 (np_log10 (np_rdiv 255 (np_sqrt (Finite m))))
       = (if m = 0 then PosInf else Finite (20 * log 10 (255 / sqrt m)))"
proof (cases "m = 0")
  case True
  then show ?thesis by simp
next
  case False
  with assms have "0 < sqrt m" by simp
  then have "0 < 255 / sqrt m" by simp
  with False assms show ?thesis by (simp add: not_less)
qed

lemma psnr_value_float:
  assumes "shape a = shape b" "length (data a) = prod_list (shape a)"
    "length (data b) = prod_list (shape b)" "np_subtract a b = Inr d"
    "dtype d = Float32 \<or> dtype d = Float64"
  shows "psnr_value d = psnr_db (data a) (data b)"
proof -
  let ?rt = "result_type (dtype a) (dtype b)"
  from np_subtract_same_shape[OF assms(1-3)] assms(4)
  have d: "d = \<lparr>shape = shape a, dtype = ?rt,
                data = map2 (\<lambda>x y. cast ?rt (x - y)) (data a) (data b)\<rparr>" by simp
  then have rt: "?rt = Float32 \<or> ?rt = Float64" using assms(5) by simp
  have len: "length (data a) = length (data b)" using assms(1-3) by simp
  have sq: "data (np_square d) = map2 (\<lambda>x y. (x - y)\<^sup>2) (data a) (data b)"
    using rt by (subst d) (auto simp: np_square_def power2_eq_square)
  have l: "length (map2 (\<lambda>x y. (x - y)\<^sup>2) (data a) (data b)) = length (data a)"
    using len by simp
  have e: "map2 (\<lambda>x y. (x - y)\<^sup>2) (data a) (data b) = [] \<longleftrightarrow> data a = []"
    using l by (metis length_0_conv)
  have "np_mean (np_square d)
        = (if data a = [] then NaN else Finite (mean_squared_error (data a) (data b)))"
    unfolding np_mean_def sq e l by (simp add: mean_squared_error_def)
  then show ?thesis
    using psnr_of_mse[OF mean_squared_error_nonneg, of "data a" "data b"]
    by (simp add: psnr_value_def psnr_db_def)
qed

text \<open>
  The label of four axes loses its first axis and keeps the elements of its first block.
\<close>

lemma strip_batch_four_axes:
  "shape l = [b, h, w, c] \<Longrightarrow> b \<noteq> 0 \<Longrightarrow>
     strip_batch l = Inr \<lparr>shape = [h, w, c], dtype = dtype l,
                           data = take (h * w * c) (data l)\<rparr>"
  by (simp add: strip_batch_def ndim_def np_first_def mult.assoc)

text \<open>
  The assertion of \<open>_eval_psnr\<close> fails exactly when the label can be normalized and the
  shapes then differ. When the shapes match, the subtraction succeeds and the line
  printed is made from the value of the source's formula on the difference; for
  well-formed arrays with a floating-point difference that value is the PSNR of the
  elements.
\<close>

lemma print_psnr_asserts_iff_shapes_differ:
  "(print_psnr rgb_array output label = Inl AssertionError \<longleftrightarrow>
      (\<exists>lab. strip_batch (as_array rgb_array label) = Inr lab
           \<and> shape (as_array rgb_array output) \<noteq> shape lab))
   \<and> (strip_batch (as_array rgb_array label) = Inr lab \<longrightarrow>
        shape lab = (if ndim (as_array rgb_array label) = 4
                     then tl (shape (as_array rgb_array label))
                     else shape (as_array rgb_array label)))
   \<and> (strip_batch (as_array rgb_array label) = Inr lab
        \<and> shape (as_array rgb_array output) = shape lab \<longrightarrow>
        (\<exists>d. np_subtract (as_array rgb_array output) lab = Inr d
           \<and> print_psnr rgb_array output label
               = Inr (''PSNR = '' @ format_2f (psnr_value d) @ ''dB'')
           \<and> (wf_array (as_array rgb_array output) \<and> wf_array lab
                \<and> (dtype d = Float32 \<or> dtype d = Float64) \<longrightarrow>
                psnr_value d = psnr_db (data (as_array rgb_array output)) (data lab))))"
proof (intro conjI impI)
  show "print_psnr rgb_array output label = Inl AssertionError \<longleftrightarrow>
      (\<exists>lab. strip_batch (as_array rgb_array label) = Inr lab
           \<and> shape (as_array rgb_array output) \<noteq> shape lab)"
  proof (cases "strip_batch (as_array rgb_array label)")
    case (Inl e)
    with strip_batch_error[of "as_array rgb_array label" e] show ?thesis
      by (simp add: print_psnr_def eval_psnr_def)
  next
    case (Inr l)
    show ?thesis
    proof (cases "shape (as_array rgb_array output) = shape l")
      case True
      with np_subtract_total[of "as_array rgb_array output" l] Inr show ?thesis
        by (auto simp: print_psnr_def eval_psnr_def)
    next
      case False
      with Inr show ?thesis by (simp add: print_psnr_def eval_psnr_def)
    qed
  qed
next
  assume "strip_batch (as_array rgb_array label) = Inr lab"
  then show "shape lab = (if ndim (as_array rgb_array label) = 4
                     then tl (shape (as_array rgb_array label))
                     else shape (as_array rgb_array label))"
    by (rule strip_batch_shape)
next
  assume h: "strip_batch (as_array rgb_array label) = Inr lab
        \<and> shape (as_array rgb_array output) = shape lab"
  then obtain d where d: "np_subtract (as_array rgb_array output) lab = Inr d"
    using np_subtract_total[of "as_array rgb_array output" lab] by blast
  have p: "print_psnr rgb_array output label
               = Inr (''PSNR = '' @ format_2f (psnr_value d) @ ''dB'')"
    using h d by (simp add: print_psnr_def eval_psnr_def)
  have f: "wf_array (as_array rgb_array output) \<and> wf_array lab
                \<and> (dtype d = Float32 \<or> dtype d = Float64) \<longrightarrow>
                psnr_value d = psnr_db (data (as_array rgb_array output)) (data lab)"
    using h d by (auto simp: wf_array_def intro: psnr_value_float)
  from d p f
  show "\<exists>d. np_subtract (as_array rgb_array output) lab = Inr d
           \<and> print_psnr rgb_array output label
               = Inr (''PSNR = '' @ format_2f (psnr_value d) @ ''dB'')
           \<and> (wf_array (as_array rgb_array output) \<and> wf_array lab
                \<and> (dtype d = Float32 \<or> dtype d = Float64) \<longrightarrow>
                psnr_value d = psnr_db (data (as_array rgb_array output)) (data lab))"
    by blast
qed

lemma print_psnr_float_example:
  "print_psnr id (ArrayArg \<lparr>shape = [1, 1, 2], dtype = Float32, data = [255, 255]\<rparr>)
     (ArrayArg \<lparr>shape = [1, 1, 1, 2], dtype = Float32, data = [0, 0]\<rparr>)
     = Inr ''PSNR = 0.00dB''
   \<and> print_psnr id (ArrayArg \<lparr>shape = [2], dtype = Float32, data = [255, 255]\<rparr>)
       (ArrayArg \<lparr>shape = [1, 1, 1, 2], dtype = Float32, data = [0, 0]\<rparr>)
     = Inl AssertionError"
proof -
  let ?out = "\<lparr>shape = [1, 1, 2], dtype = Float32, data = [255, 255]\<rparr>"
  let ?flat = "\<lparr>shape = [2], dtype = Float32, data = [255, 255]\<rparr>"
  let ?label = "\<lparr>shape = [1, 1, 1, 2], dtype = Float32, data = [0, 0]\<rparr>"
  let ?lab = "\<lparr>shape = [1, 1, 2], dtype = Float32, data = [0, 0]\<rparr>"
  have sb: "strip_batch (as_array id (ArrayArg ?label)) = Inr ?lab"
    by (simp add: strip_batch_def ndim_def np_first_def)
  have wf: "wf_array ?out" "wf_array ?lab" by (simp_all add: wf_array_def)
  from print_psnr_asserts_iff_shapes_differ
    [of id "ArrayArg ?out" "ArrayArg ?label" ?lab] sb
  obtain d where d: "np_subtract ?out ?lab = Inr d"
    and p: "print_psnr id (ArrayArg ?out) (ArrayArg ?label)
              = Inr (''PSNR = '' @ format_2f (psnr_value d) @ ''dB'')"
    and v: "wf_array ?out \<and> wf_array ?lab \<and> (dtype d = Float32 \<or> dtype d = Float64)
              \<longrightarrow> psnr_value d = psnr_db [255, 255] [0, 0]"
    by auto
  from d have "dtype d = Float32"
    by (subst (asm) np_subtract_same_shape) auto
  with v wf have "psnr_value d = Finite 0"
    by (simp add: psnr_db_def mean_squared_error_def)
  with p have one: "print_psnr id (ArrayArg ?out) (ArrayArg ?label) = Inr ''PSNR = 0.00dB''"
    by (simp add: format_2f_real_def round_half_even_def digit_def)
  from print_psnr_asserts_iff_shapes_differ
    [of id "ArrayArg ?flat" "ArrayArg ?label" ?lab] sb
  have two: "print_psnr id (ArrayArg ?flat) (ArrayArg ?label) = Inl AssertionError"
    by simp
  from one two show ?thesis by simp
qed

text \<open>
  Claim C7: \<open>print_psnr\<close> fails with an assertion error exactly when the output and
  label arrays have different shapes after the shape normalization, which strips the
  leading batch axis of a label with four axes; when the shapes match it computes the
  PSNR between output and label and prints it in the format \<open>PSNR = {value}dB\<close>. The
  code does not compute the PSNR of arrays of an integer type: the difference and its
  square are taken in that type and wrap around. For the \<open>uint8\<close> arrays \<open>[0, 0]\<close>
  and \<open>[16, 16]\<close> the difference is \<open>240\<close>, its square wraps to \<open>0\<close>, and the line
  printed is \<open>PSNR = infdB\<close>, where the PSNR is \<open>20 * log10 (255 / 16)\<close>, about 24
  decibels.
\<close>

theorem print_psnr_uint8_difference_wraps:
  "print_psnr id (ArrayArg \<lparr>shape = [2], dtype = UInt8, data = [0, 0]\<rparr>)
     (ArrayArg \<lparr>shape = [2], dtype = UInt8, data = [16, 16]\<rparr>)
     = Inr ''PSNR = infdB''
   \<and> psnr_db [0, 0] [16, 16] = Finite (20 * log 10 (255 / 16))
   \<and> np_subtract \<lparr>shape = [2], dtype = UInt8, data = [0, 0]\<rparr>
         \<lparr>shape = [2], dtype = UInt8, data = [16, 16]\<rparr>
       = Inr \<lparr>shape = [2], dtype = UInt8, data = [240, 240]\<rparr>"
proof -
  let ?a = "\<lparr>shape = [2], dtype = UInt8, data = [0, 0]\<rparr>"
  let ?b = "\<lparr>shape = [2], dtype = UInt8, data = [16, 16]\<rparr>"
  let ?d = "\<lparr>shape = [2], dtype = UInt8, data = [240, 240]\<rparr>"
  have d: "np_subtract ?a ?b = Inr ?d"
    by (subst np_subtract_same_shape) simp_all
  have sq: "np_square ?d = \<lparr>shape = [2], dtype = UInt8, data = [0, 0]\<rparr>"
    by (simp add: np_square_def)
  have v: "psnr_value ?d = PosInf"
    by (simp add: psnr_value_def sq np_mean_def)
  have p: "print_psnr id (ArrayArg ?a) (ArrayArg ?b) = Inr ''PSNR = infdB''"
    by (simp add: print_psnr_def eval_psnr_def strip_batch_def ndim_def d v)
  have "sqrt 256 = 16" by (rule real_sqrt_unique) simp_all
  then have t: "psnr_db [0, 0] [16, 16] = Finite (20 * log 10 (255 / 16))"
    by (simp add: psnr_db_def mean_squared_error_def)
  from p t d show ?thesis by simp
qed

text \<open>
  Claim C8: when \<open>print_psnr\<close> is invoked with identical output and label arrays it
  does not raise and prints an arbitrarily large (infinite) PSNR. This fails for
  identical arrays with four axes: the batch axis is stripped from the label only, so
  the shapes differ and the assertion fails.
\<close>

theorem print_psnr_identical_batches_raise:
  "print_psnr id
     (ArrayArg \<lparr>shape = [1, 1, 1, 1], dtype = Float32, data = [7]\<rparr>)
     (ArrayArg \<lparr>shape = [1, 1, 1, 1], dtype = Float32, data = [7]\<rparr>) = Inl AssertionError"
  by (simp add: print_psnr_def eval_psnr_def strip_batch_def ndim_def np_first_def)

text \<open>
  Claim C8, amended: when \<open>print_psnr\<close> is invoked with a non-empty output and a label
  that is identical to the output after the batch axis of a label with four axes is
  stripped (in particular with identical arrays that do not have four axes), it does
  not raise and prints \<open>PSNR = infdB\<close>.
\<close>

theorem print_psnr_identical_prints_inf:
  assumes "wf_array a" and "data a \<noteq> []"
    and "as_array rgb_array output = a"
    and "strip_batch (as_array rgb_array label) = Inr a"
  shows "print_psnr rgb_array output label = Inr ''PSNR = infdB''"
proof -
  from psnr_identical[OF assms(1,2)] obtain d where
    d: "np_subtract a a = Inr d" and p: "psnr_value d = PosInf" by blast
  show ?thesis
    using assms(3,4) d p by (simp add: print_psnr_def eval_psnr_def)
qed

theorem print_psnr_identical_prints_inf_witness:
  "print_psnr id
     (ArrayArg \<lparr>shape = [1, 1, 2], dtype = UInt8, data = [7, 9]\<rparr>)
     (ArrayArg \<lparr>shape = [1, 1, 1, 2], dtype = UInt8, data = [7, 9]\<rparr>) = Inr ''PSNR = infdB''
   \<and> print_psnr id
     (ArrayArg \<lparr>shape = [2], dtype = Float32, data = [1 / 2, 1]\<rparr>)
     (ArrayArg \<lparr>shape = [2], dtype = Float32, data = [1 / 2, 1]\<rparr>) = Inr ''PSNR = infdB''"
proof
  show "print_psnr id
     (ArrayArg \<lparr>shape = [1, 1, 2], dtype = UInt8, data = [7, 9]\<rparr>)
     (ArrayArg \<lparr>shape = [1, 1, 1, 2], dtype = UInt8, data = [7, 9]\<rparr>) = Inr ''PSNR = infdB''"
    by (rule print_psnr_identical_prints_inf
          [where a = "\<lparr>shape = [1, 1, 2], dtype = UInt8, data = [7, 9]\<rparr>"])
       (simp_all add: wf_array_def strip_batch_def ndim_def np_first_def)
  show "print_psnr id
     (ArrayArg \<lparr>shape = [2], dtype = Float32, data = [1 / 2, 1]\<rparr>)
     (ArrayArg \<lparr>shape = [2], dtype = Float32, data = [1 / 2, 1]\<rparr>) = Inr ''PSNR = infdB''"
    by (rule print_psnr_identical_prints_inf
          [where a = "\<lparr>shape = [2], dtype = Float32, data = [1 / 2, 1]\<rparr>"])
       (simp_all add: wf_array_def strip_batch_def ndim_def)
qed

subsection \<open>Luma and chroma\<close>

lemma chunks_Cons: "chunks (Suc n) k xs = take k xs # chunks n k (drop k xs)"
proof -
  have "[0..<Suc n] = 0 # map Suc [0..<n]"
    by (simp add: upt_conv_Cons map_Suc_upt del: upt_Suc)
  then have "chunks (Suc n) k xs = take k xs # map (\<lambda>i. take k (drop (Suc i * k) xs)) [0..<n]"
    unfolding chunks_def by (simp add: comp_def del: upt_Suc)
  also have "map (\<lambda>i. take k (drop (Suc i * k) xs)) [0..<n] = chunks n k (drop k xs)"
    by (simp add: chunks_def add.commute)
  finally show ?thesis .
qed

lemma chunks_concat:
  "length yss = n \<Longrightarrow> \<forall>ys\<in>set yss. length ys = k \<Longrightarrow> chunks n k (concat yss) = yss"
proof (induction yss arbitrary: n)
  case Nil
  then show ?case by (simp add: chunks_def)
next
  case (Cons ys yss)
  then obtain m where n: "n = Suc m" and m: "length yss = m" by (cases n) auto
  from Cons.prems(2) have k: "length ys = k" and ks: "\<forall>ys\<in>set yss. length ys = k" by simp_all
  from Cons.IH[OF m ks] k show ?case by (simp add: n chunks_Cons)
qed

lemma map2_same: "map2 f (map g xs) (map h xs) = map (\<lambda>x. f (g x) (h x)) xs"
  by (induction xs) auto

lemma slice_rows:
  assumes "length xs = n * c" and "0 < c"
  shows "concat (map2 (@) (chunks n 1 (concat (map (take 1) (chunks n c xs))))
                         (chunks n (c - 1) (concat (map (drop 1) (chunks n c xs))))) = xs"
proof -
  let ?rows = "chunks n c xs"
  have len: "\<forall>r\<in>set ?rows. length r = c" using length_chunk[OF assms(1)] by blast
  have a: "chunks n 1 (concat (map (take 1) ?rows)) = map (take 1) ?rows"
    by (rule chunks_concat) (use len assms(2) in auto)
  have b: "chunks n (c - 1) (concat (map (drop 1) ?rows)) = map (drop 1) ?rows"
    by (rule chunks_concat) (use len in auto)
  have "map2 (@) (map (take 1) ?rows) (map (drop 1) ?rows)
        = map (\<lambda>r. take 1 r @ drop 1 r) ?rows"
    by (rule map2_same)
  also have "\<dots> = ?rows" by simp
  finally show ?thesis using a b concat_chunks[OF assms(1)] by simp
qed

lemma prod_list_butlast: "s \<noteq> [] \<Longrightarrow> prod_list s = prod_list (butlast s) * last s"
  by (induction s) (auto simp: mult.assoc)

text \<open>
  Claim C9: \<open>to_gray\<close> and \<open>to_uv\<close> are complementary slices of the channels: for
  every array with at least one trailing channel, \<open>to_gray\<close> returns the first channel
  and keeps the channel axis, \<open>to_uv\<close> returns all remaining channels, and
  concatenating the two results along the last axis gives the array back.
\<close>

theorem to_gray_to_uv_reassemble:
  assumes "wf_array x" and "shape x \<noteq> []" and "0 < last (shape x)"
  shows "\<exists>g u. to_gray x = Inr g \<and> to_uv x = Inr u
    \<and> shape g = butlast (shape x) @ [1]
    \<and> shape u = butlast (shape x) @ [last (shape x) - 1]
    \<and> data g = concat (map (take 1)
                 (chunks (prod_list (butlast (shape x))) (last (shape x)) (data x)))
    \<and> data u = concat (map (drop 1)
                 (chunks (prod_list (butlast (shape x))) (last (shape x)) (data x)))
    \<and> concatenate_last g u = Inr x"
proof -
  let ?s = "shape x" let ?c = "last ?s" let ?n = "prod_list (butlast ?s)"
  let ?rows = "chunks ?n ?c (data x)"
  have len: "length (data x) = ?n * ?c"
    using assms(1,2) by (simp add: wf_array_def prod_list_butlast)
  have rl: "\<forall>r\<in>set ?rows. length r = ?c" using length_chunk[OF len] by blast
  have "map (\<lambda>row. take (?c - 1) (drop 1 row)) ?rows = map (drop 1) ?rows"
    by (rule map_cong[OF refl]) (use rl in auto)
  then have dr: "concat (map (\<lambda>row. take (?c - 1) (drop 1 row)) ?rows)
               = concat (map (drop 1) ?rows)"
    by (rule arg_cong)
  let ?g = "x\<lparr>shape := butlast ?s @ [1], data := concat (map (take 1) ?rows)\<rparr>"
  let ?u = "x\<lparr>shape := butlast ?s @ [?c - 1], data := concat (map (drop 1) ?rows)\<rparr>"
  have m: "min 1 ?c = 1" using assms(3) by simp
  have g: "to_gray x = Inr ?g"
    using assms(2) m by (simp add: to_gray_def slice_last_def Let_def)
  have u: "to_uv x = Inr ?u"
    using assms(2) m dr by (simp add: to_uv_def slice_last_def Let_def)
  have cat: "concatenate_last ?g ?u = Inr x"
    using slice_rows[OF len assms(3)] assms(2,3)
    by (simp add: concatenate_last_def result_type_same Let_def)
  show ?thesis
    using g u cat by simp
qed

theorem to_gray_to_uv_reassemble_witness:
  "to_gray \<lparr>shape = [2, 3], dtype = UInt8, data = [1, 2, 3, 4, 5, 6]\<rparr>
     = Inr \<lparr>shape = [2, 1], dtype = UInt8, data = [1, 4]\<rparr>
   \<and> to_uv \<lparr>shape = [2, 3], dtype = UInt8, data = [1, 2, 3, 4, 5, 6]\<rparr>
     = Inr \<lparr>shape = [2, 2], dtype = UInt8, data = [2, 3, 5, 6]\<rparr>
   \<and> concatenate_last \<lparr>shape = [2, 1], dtype = UInt8, data = [1, 4]\<rparr>
        \<lparr>shape = [2, 2], dtype = UInt8, data = [2, 3, 5, 6]\<rparr>
     = Inr \<lparr>shape = [2, 3], dtype = UInt8, data = [1, 2, 3, 4, 5, 6]\<rparr>"
proof -
  let ?x = "\<lparr>shape = [2, 3], dtype = UInt8, data = [1, 2, 3, 4, 5, 6]\<rparr>"
  have w: "wf_array ?x" by (simp add: wf_array_def)
  have g: "to_gray ?x = Inr \<lparr>shape = [2, 1], dtype = UInt8, data = [1, 4]\<rparr>"
    by (simp add: to_gray_def slice_last_def chunks_def upt_rec)
  have u: "to_uv ?x = Inr \<lparr>shape = [2, 2], dtype = UInt8, data = [2, 3, 5, 6]\<rparr>"
    by (simp add: to_uv_def slice_last_def chunks_def upt_rec)
  from to_gray_to_uv_reassemble[OF w] g u show ?thesis by (simp add: chunks_def upt_rec)
qed

end


